theory Spec2Isabelle
  imports Main "HOL-Library.AList"
begin

section \<open>JSON values and the Python operations the helpers apply to them\<close>

text \<open>
  Both helpers work on what \<^verbatim>\<open>json.load\<close> returns: \<^verbatim>\<open>None\<close>, booleans, numbers,
  strings, lists and dictionaries. A dictionary is an association list in insertion
  order; a lookup finds the first pair with the key and an assignment replaces that
  pair in place or appends a new one, as a Python \<^verbatim>\<open>dict\<close> does. Numbers are
  integers: floating-point numbers are outside the model. A \<open>string\<close> stands for a
  Python \<^verbatim>\<open>str\<close> whose code points are below 256.
\<close>

datatype json =
    JNull
  | JBool bool
  | JNum int
  | JStr string
  | JArr "json list"
  | JObj "(string \<times> json) list"

type_synonym pdict = "(string \<times> json) list"

datatype py_error =
    KeyError json
  | IndexError
  | TypeError
  | AttributeError
  | MarkupError

lemma size_map_of_lt:
  "map_of kvs k = Some v \<Longrightarrow> size v < Suc (size_list (size_prod (\<lambda>_. 0) size) kvs)"
  by (induction kvs) (auto split: if_splits)

lemma size_set_lt: "x \<in> set xs \<Longrightarrow> size x < Suc (size_list size xs)"
  by (induction xs) auto

lemma size_zip_lt: "(x, y) \<in> set (zip xs ys) \<Longrightarrow> size x < Suc (size_list size xs)"
  by (rule size_set_lt) (rule set_zip_leftD)

text \<open>
  Python's \<^verbatim>\<open>==\<close> on these values: \<^verbatim>\<open>True == 1\<close> and \<^verbatim>\<open>False == 0\<close>, lists are
  compared element by element, dictionaries key by key whatever their order.
\<close>

function py_eq :: "json \<Rightarrow> json \<Rightarrow> bool" where
  "py_eq JNull b = (b = JNull)"
| "py_eq (JBool x) b =
     (case b of JBool y \<Rightarrow> x = y | JNum n \<Rightarrow> n = (if x then 1 else 0) | _ \<Rightarrow> False)"
| "py_eq (JNum m) b =
     (case b of JBool y \<Rightarrow> m = (if y then 1 else 0) | JNum n \<Rightarrow> m = n | _ \<Rightarrow> False)"
| "py_eq (JStr s) b = (b = JStr s)"
| "py_eq (JArr xs) b =
     (case b of
        JArr ys \<Rightarrow> length xs = length ys \<and> (\<forall>(x, y) \<in> set (zip xs ys). py_eq x y)
      | _ \<Rightarrow> False)"
| "py_eq (JObj kvs) b =
     (case b of
        JObj kws \<Rightarrow>
          set (map fst kvs) = set (map fst kws) \<and>
          (\<forall>k \<in> set (map fst kvs).
             case map_of kvs k of
               None \<Rightarrow> False
             | Some v \<Rightarrow> (case map_of kws k of None \<Rightarrow> False | Some w \<Rightarrow> py_eq v w))
      | _ \<Rightarrow> False)"
  by pat_completeness auto
termination
  by (relation "measure (\<lambda>(a, b). size a)") (auto simp: size_map_of_lt size_zip_lt)

text \<open>\<^verbatim>\<open>x in [a, b, c]\<close> on a list.\<close>

definition py_in :: "json \<Rightarrow> json list \<Rightarrow> bool" where
  "py_in x xs = list_ex (\<lambda>e. py_eq e x) xs"

text \<open>Truth value, as \<^verbatim>\<open>if v:\<close> and \<^verbatim>\<open>v or d\<close> test it.\<close>

fun truthy :: "json \<Rightarrow> bool" where
  "truthy JNull = False"
| "truthy (JBool b) = b"
| "truthy (JNum n) = (n \<noteq> 0)"
| "truthy (JStr s) = (s \<noteq> [])"
| "truthy (JArr xs) = (xs \<noteq> [])"
| "truthy (JObj kvs) = (kvs \<noteq> [])"

definition py_or :: "json \<Rightarrow> json \<Rightarrow> json" where
  "py_or a b = (if truthy a then a else b)"

text \<open>\<^verbatim>\<open>d[k]\<close>, \<^verbatim>\<open>d.get(k, default)\<close>, \<^verbatim>\<open>k in d\<close> and \<^verbatim>\<open>d[k] = v\<close> on a dictionary.\<close>

definition subscript :: "pdict \<Rightarrow> string \<Rightarrow> py_error + json" where
  "subscript d k = (case map_of d k of None \<Rightarrow> Inl (KeyError (JStr k)) | Some v \<Rightarrow> Inr v)"

definition dict_get :: "pdict \<Rightarrow> string \<Rightarrow> json \<Rightarrow> json" where
  "dict_get d k dflt = (case map_of d k of None \<Rightarrow> dflt | Some v \<Rightarrow> v)"

definition has_key :: "pdict \<Rightarrow> string \<Rightarrow> bool" where
  "has_key d k = (map_of d k \<noteq> None)"

definition dict_set :: "pdict \<Rightarrow> string \<Rightarrow> json \<Rightarrow> pdict" where
  "dict_set d k v = AList.update k v d"

text \<open>
  An f-string is kept as the list of its pieces: the literal text and the values that
  Python's \<^verbatim>\<open>str\<close> formats into it.
\<close>

datatype piece = Lit string | Str json

datatype style = Red | Yellow

datatype event =
    Console_print "piece list" style
  | Logging_error "piece list"

text \<open>
  Both modules print through \<^verbatim>\<open>Console()\<close> of the \<^verbatim>\<open>rich\<close> library, which reads tags in
  square brackets in the text it prints and raises \<^verbatim>\<open>MarkupError\<close> for a closing tag that
  closes nothing. The library is not part of the repository: which messages its markup
  parser accepts is a parameter of the model. A message without a bracket has no tag.
\<close>

type_synonym markup = "piece list \<Rightarrow> bool"

section \<open>helpers/enrichments.py\<close>

text \<open>
  The two summarizers call a remote model. A call is given the state of the outside
  world and returns the new one with its outcome: the value returned, or the message
  of the \<^verbatim>\<open>Exception\<close> raised.
\<close>

datatype outcome = Returned json | Raised string

type_synonym 'w summarizer = "json \<Rightarrow> 'w \<Rightarrow> outcome \<times> 'w"

text \<open>
  The state of one run: the list \<^verbatim>\<open>json_data\<close> in memory, every version of the file
  written so far (oldest first), what was printed and logged, and the outside world.
  The progress bar is not modelled, and opening and writing the file succeed.
\<close>

record 'w estate =
  json_data :: "pdict list"
  written :: "pdict list list"
  printed :: "event list"
  world :: 'w

text \<open>
  \<^verbatim>\<open>[item for item in json_data if p(item)]\<close>. The items of the result are the very
  objects of \<^verbatim>\<open>json_data\<close>, so the model keeps their positions.
\<close>

fun select_items :: "(pdict \<Rightarrow> py_error + bool) \<Rightarrow> nat \<Rightarrow> pdict list \<Rightarrow> py_error + nat list" where
  "select_items p i [] = Inr []"
| "select_items p i (item # items) =
     (case p item of
        Inl e \<Rightarrow> Inl e
      | Inr b \<Rightarrow>
          (case select_items p (Suc i) items of
             Inl e \<Rightarrow> Inl e
           | Inr js \<Rightarrow> Inr (if b then i # js else js)))"

definition is_image :: "pdict \<Rightarrow> py_error + bool" where
  "is_image item =
     (case subscript item ''type'' of
        Inl e \<Rightarrow> Inl e
      | Inr t \<Rightarrow> Inr (py_eq t (JStr ''Image'')))"

definition is_text :: "pdict \<Rightarrow> py_error + bool" where
  "is_text item =
     (case subscript item ''type'' of
        Inl e \<Rightarrow> Inl e
      | Inr t \<Rightarrow> Inr (py_in t [JStr ''NarrativeText'', JStr ''Title'', JStr ''UncategorizedText'']))"

text \<open>
  One iteration of the loop over \<^verbatim>\<open>imageElements\<close>, on the item at position \<open>i\<close> of
  \<^verbatim>\<open>json_data\<close>; the positions come from \<open>select_items\<close> and are within the list. The
  result is the exception that leaves the iteration, if any, and the state then. In the
  handler \<^verbatim>\<open>console.print\<close> comes before \<^verbatim>\<open>logging.error\<close>: when the console rejects the
  message, nothing is logged and \<^verbatim>\<open>MarkupError\<close> leaves the handler.
\<close>

definition image_step ::
    "markup \<Rightarrow> 'w summarizer \<Rightarrow> nat \<Rightarrow> 'w estate \<Rightarrow> py_error option \<times> 'w estate" where
  "image_step markup_ok summarize_image i st =
     (let item = json_data st ! i in
      case subscript item ''metadata'' of
        Inl e \<Rightarrow> (Some e, st)
      | Inr (JObj metadata) \<Rightarrow>
          (let image_base64 = dict_get metadata ''image_base64'' JNull in
           if truthy image_base64 then
             (case summarize_image image_base64 (world st) of
                (Returned summary, w) \<Rightarrow>
                  (let data = (json_data st)[i := dict_set item ''text'' summary] in
                   (None, st\<lparr>json_data := data, written := written st @ [data], world := w\<rparr>))
              | (Raised e, w) \<Rightarrow>
                  if markup_ok [Lit ''Error processing image: '', Lit e] then
                    (None,
                     st\<lparr>printed := printed st @
                            [Console_print [Lit ''Error processing image: '', Lit e] Red,
                             Logging_error [Lit ''Error processing image: '', Lit e]],
                        world := w\<rparr>)
                  else (Some MarkupError, st\<lparr>world := w\<rparr>))
           else
             (let message =
                    [Lit ''Skipping image without base64 data: '',
                     Str (dict_get item ''text'' (JStr ''Unnamed image''))]
              in if markup_ok message
                 then (None, st\<lparr>printed := printed st @ [Console_print message Yellow]\<rparr>)
                 else (Some MarkupError, st)))
      | Inr _ \<Rightarrow> (Some AttributeError, st))"

text \<open>
  One iteration of the loop over \<^verbatim>\<open>textElements\<close>. The message about an empty text has
  no bracket.
\<close>

definition text_step ::
    "markup \<Rightarrow> 'w summarizer \<Rightarrow> nat \<Rightarrow> 'w estate \<Rightarrow> py_error option \<times> 'w estate" where
  "text_step markup_ok summarize_text i st =
     (let item = json_data st ! i;
          text_content = dict_get item ''text'' JNull in
      if truthy text_content then
        (case summarize_text text_content (world st) of
           (Returned summary, w) \<Rightarrow>
             (let data = (json_data st)[i := dict_set item ''summary'' summary] in
              (None, st\<lparr>json_data := data, written := written st @ [data], world := w\<rparr>))
         | (Raised e, w) \<Rightarrow>
             if markup_ok [Lit ''Error processing text: '', Lit e] then
               (None,
                st\<lparr>printed := printed st @
                       [Console_print [Lit ''Error processing text: '', Lit e] Red,
                        Logging_error [Lit ''Error processing text: '', Lit e]],
                   world := w\<rparr>)
             else (Some MarkupError, st\<lparr>world := w\<rparr>))
      else
        (None,
         st\<lparr>printed := printed st @
                [Console_print [Lit ''Skipping empty text element''] Yellow]\<rparr>))"

text \<open>
  The two loops. An exception that is not caught ends the run; the state reached by
  then stays, with the versions of the file already written.
\<close>

fun enrich_images ::
    "markup \<Rightarrow> 'w summarizer \<Rightarrow> nat list \<Rightarrow> 'w estate \<Rightarrow> py_error option \<times> 'w estate" where
  "enrich_images markup_ok summarize_image [] st = (None, st)"
| "enrich_images markup_ok summarize_image (i # is) st =
     (case image_step markup_ok summarize_image i st of
        (Some e, st') \<Rightarrow> (Some e, st')
      | (None, st') \<Rightarrow> enrich_images markup_ok summarize_image is st')"

fun enrich_texts ::
    "markup \<Rightarrow> 'w summarizer \<Rightarrow> nat list \<Rightarrow> 'w estate \<Rightarrow> py_error option \<times> 'w estate" where
  "enrich_texts markup_ok summarize_text [] st = (None, st)"
| "enrich_texts markup_ok summarize_text (i # is) st =
     (case text_step markup_ok summarize_text i st of
        (Some e, st') \<Rightarrow> (Some e, st')
      | (None, st') \<Rightarrow> enrich_texts markup_ok summarize_text is st')"

text \<open>
  \<^verbatim>\<open>enrich_json_with_summaries(json_file)\<close>: \<open>file\<close> is what \<^verbatim>\<open>json.load\<close> reads from
  \<^verbatim>\<open>json_file\<close>, a list of dictionaries. The result is the exception that left the
  function, if any, and the final state.
\<close>

definition enrich_json_with_summaries ::
    "markup \<Rightarrow> 'w summarizer \<Rightarrow> 'w summarizer \<Rightarrow> pdict list \<Rightarrow> 'w \<Rightarrow>
     py_error option \<times> 'w estate" where
  "enrich_json_with_summaries markup_ok summarize_image summarize_text file w =
     (let st = \<lparr>json_data = file, written = [], printed = [], world = w\<rparr> in
      case select_items is_image 0 file of
        Inl e \<Rightarrow> (Some e, st)
      | Inr imageElements \<Rightarrow>
          (case select_items is_text 0 file of
             Inl e \<Rightarrow> (Some e, st)
           | Inr textElements \<Rightarrow>
               (case enrich_images markup_ok summarize_image imageElements st of
                  (Some e, st') \<Rightarrow> (Some e, st')
                | (None, st') \<Rightarrow> enrich_texts markup_ok summarize_text textElements st')))"

text \<open>The content of \<^verbatim>\<open>json_file\<close> once the run is over.\<close>

definition file_after :: "pdict list \<Rightarrow> 'w estate \<Rightarrow> pdict list" where
  "file_after file st = last (file # written st)"

section \<open>helpers/generate_markdown.py\<close>

text \<open>
  \<^verbatim>\<open>s.splitlines()\<close> and \<^verbatim>\<open>sep.join(lines)\<close>. A line ends at a line feed, a carriage
  return (with the line feed that follows it, if any), a vertical tab, a form feed, a
  file, group or record separator, or a next-line character.
\<close>

definition line_boundary :: "char \<Rightarrow> bool" where
  "line_boundary c =
     (c \<in> set [CHR 0x0A, CHR 0x0D, CHR 0x0B, CHR 0x0C, CHR 0x1C, CHR 0x1D, CHR 0x1E, CHR 0x85])"

fun splitlines_from :: "string \<Rightarrow> string \<Rightarrow> string list" where
  "splitlines_from line [] = (if line = [] then [] else [line])"
| "splitlines_from line [c] =
     (if line_boundary c then [line] else [line @ [c]])"
| "splitlines_from line (c # d # cs) =
     (if c = CHR 0x0D \<and> d = CHR 0x0A then line # splitlines_from [] cs
      else if line_boundary c then line # splitlines_from [] (d # cs)
      else splitlines_from (line @ [c]) (d # cs))"

definition splitlines :: "string \<Rightarrow> string list" where
  "splitlines s = splitlines_from [] s"

fun join :: "string \<Rightarrow> string list \<Rightarrow> string" where
  "join sep [] = []"
| "join sep [x] = x"
| "join sep (x # y # ys) = x @ sep @ join sep (y # ys)"

text \<open>
  The output is built from the f-strings of the source. Each one is a segment that
  keeps the values formatted into it; \<open>seg_pieces\<close> gives its text.
\<close>

datatype seg =
    Leading_newline
  | Page_footer json
  | Chunk_header json
  | Chunk_text string
  | Original_elements
  | Element_tag json json
  | Title_heading json
  | Header_block json
  | Footer_block json
  | Summary_callout json
  | List_bullet json
  | Image_reference string json json
  | Image_placeholder json
  | Chunk_close

fun seg_pieces :: "seg \<Rightarrow> piece list" where
  \<open>seg_pieces Leading_newline = [Lit ''\<newline>'']\<close>
| \<open>seg_pieces (Page_footer current_page) =
     [Lit ''\<newline>\<newline>---\<newline>Page '', Str current_page,
      Lit ''\<newline>\<newline>---\<newline>\<newline>'']\<close>
| \<open>seg_pieces (Chunk_header chunk_id) =
     [Lit ''<details style='weight:bold'>\<newline><summary>Chunk '', Str chunk_id,
      Lit ''</summary>\<newline>\<newline>'']\<close>
| \<open>seg_pieces (Chunk_text chunk_text) =
     [Lit ''<details style='color: #583;weight:bold;padding-left: 1em;'>\<newline><summary>Chunk Text</summary>\<newline>\<newline>'',
      Lit chunk_text, Lit ''\<newline>\<newline></details>\<newline>\<newline>'']\<close>
| \<open>seg_pieces Original_elements =
     [Lit ''<details style='color: #1010e0;weight:bold;padding-left: 1em;'>\<newline><summary>Original Elements</summary>\<newline>\<newline>'']\<close>
| \<open>seg_pieces (Element_tag category ident) =
     [Lit ''<div style='font-size: 10px; color: lightgrey; display: block;'>'', Str category,
      Lit '' | ID: '', Str ident, Lit ''</div>\<newline>\<newline>'']\<close>
| \<open>seg_pieces (Title_heading content) =
     [Lit ''> # '', Str content, Lit ''\<newline>\<newline>'']\<close>
| \<open>seg_pieces (Header_block content) =
     [Lit ''<div style='background-color: #f7facc;color: #000;padding: 12px 2px 4px; border-bottom: 1px solid #000;'> '',
      Str content, Lit ''\<newline>\<newline></div>'']\<close>
| \<open>seg_pieces (Footer_block content) =
     [Lit ''<div style='background-color: #f7facc;color: #000;padding: 12px 2px 4px; border-top: 1px solid #000;'> '',
      Str content, Lit ''\<newline>\<newline></div>'']\<close>
| \<open>seg_pieces (Summary_callout summary) =
     [Lit ''| <p style="line-height:.9; bgcolor: #000"><span style="font-family:Tahoma; font-size:.7em; color: #24a8fb">'',
      Str summary, Lit ''</span></p> |\<newline>|:--:|\<newline>\<newline>'']\<close>
| \<open>seg_pieces (List_bullet content) =
     [Lit ''> - '', Str content, Lit ''\<newline>'']\<close>
| \<open>seg_pieces (Image_reference image_format image_base64 caption) =
     [Lit ''| ![IMAGE:](data:image/'', Lit image_format, Lit '';base64,'', Str image_base64,
      Lit '')  |\<newline>|:--:|\<newline>| '',
      Lit ''<p style="line-height:.9; bgcolor: #000"><span style="font-family:Tahoma; font-size:.7em; color: #24a8fb">'',
      Str caption, Lit ''</span></p>'', Lit '' |\<newline>\<newline>'']\<close>
| \<open>seg_pieces (Image_placeholder content) =
     [Lit ''> Image: '', Str content, Lit ''\<newline>\<newline>'']\<close>
| \<open>seg_pieces Chunk_close =
     [Lit ''</details>\<newline>\<newline></details>\<newline>\<newline>'']\<close>

text \<open>The body of the loop over \<^verbatim>\<open>item['orig_elements']\<close>, for one element.\<close>

definition render_element :: "pdict \<Rightarrow> json \<Rightarrow> py_error + seg list" where
  "render_element item orig_element =
     (case orig_element of
        JObj el \<Rightarrow>
          (let category = dict_get el ''type'' (JStr ''Unknown'');
               content = dict_get el ''text'' (JStr ''No content'');
               ident = dict_get el ''id'' (JStr ''No ID'');
               tag = Element_tag category ident
           in
           if py_eq category (JStr ''Title'') then Inr [tag, Title_heading content]
           else if py_eq category (JStr ''Header'') then Inr [tag, Header_block content]
           else if py_eq category (JStr ''Footer'') then Inr [tag, Footer_block content]
           else if py_in category [JStr ''NarrativeText'', JStr ''UncategorizedText'', JStr ''Title''] then
             (if has_key item ''summary''
              then Inr [tag, Summary_callout (dict_get item ''summary'' JNull)]
              else Inr [tag])
           else if py_eq category (JStr ''ListItem'') then Inr [tag, List_bullet content]
           else if py_eq category (JStr ''Table'') \<or> py_eq category (JStr ''Image'') then
             (let image_base64 = dict_get el ''image'' JNull in
              if truthy image_base64 then
                (let image_format =
                       (if py_eq (dict_get el ''image_mime_type'' JNull) (JStr ''image/png'')
                        then ''png'' else ''jpeg'')
                 in case subscript el ''text'' of
                      Inl e \<Rightarrow> Inl e
                    | Inr caption \<Rightarrow> Inr [tag, Image_reference image_format image_base64 caption])
              else Inr [tag, Image_placeholder (py_or content (JStr ''?Unknown''))])
           else Inr [tag])
      | _ \<Rightarrow> Inl AttributeError)"

fun render_elements :: "pdict \<Rightarrow> json list \<Rightarrow> py_error + seg list" where
  "render_elements item [] = Inr []"
| "render_elements item (orig_element # rest) =
     (case render_element item orig_element of
        Inl e \<Rightarrow> Inl e
      | Inr segs \<Rightarrow>
          (case render_elements item rest of
             Inl e \<Rightarrow> Inl e
           | Inr segs' \<Rightarrow> Inr (segs @ segs')))"

text \<open>\<^verbatim>\<open>orig_elements[0].get('page_number')\<close> on a list.\<close>

definition first_page_number :: "json list \<Rightarrow> py_error + json" where
  "first_page_number orig_elements =
     (case orig_elements of
        [] \<Rightarrow> Inl IndexError
      | JObj el # _ \<Rightarrow> Inr (dict_get el ''page_number'' JNull)
      | _ # _ \<Rightarrow> Inl AttributeError)"

text \<open>What one chunk adds to \<^verbatim>\<open>page_content\<close>, from \<^verbatim>\<open>chunk_text\<close> to the closing tags.\<close>

definition chunk_content :: "pdict \<Rightarrow> json list \<Rightarrow> py_error + seg list" where
  "chunk_content item orig_elements =
     (case subscript item ''text'' of
        Inl e \<Rightarrow> Inl e
      | Inr (JStr s) \<Rightarrow>
          (let chunk_text = '' > '' @ join ''\<newline>> '' (splitlines s) in
           case subscript item ''id'' of
             Inl e \<Rightarrow> Inl e
           | Inr chunk_id \<Rightarrow>
               (case render_elements item orig_elements of
                  Inl e \<Rightarrow> Inl e
                | Inr segs \<Rightarrow>
                    Inr ([Chunk_header chunk_id, Chunk_text chunk_text, Original_elements]
                         @ segs @ [Chunk_close])))
      | Inr _ \<Rightarrow> Inl AttributeError)"

text \<open>
  The state of the loop over \<^verbatim>\<open>json_data\<close>, and one iteration; \<open>JNull\<close> is \<^verbatim>\<open>None\<close>.
  When \<^verbatim>\<open>orig_elements\<close> is not a list, \<^verbatim>\<open>item['orig_elements'][0].get('page_number')\<close>
  raises: a string has a first character but no \<^verbatim>\<open>get\<close>, a dictionary has no key 0, and
  a number or a boolean cannot be indexed. The strings
  \<^verbatim>\<open>markdown_content\<close> and \<^verbatim>\<open>page_content\<close> are lists of segments, and every segment
  has text, so that \<^verbatim>\<open>if page_content:\<close> tests the list for emptiness.
\<close>

record mstate =
  markdown_content :: "seg list"
  current_page :: json
  page_content :: "seg list"
  console :: "event list"

definition chunk_step :: "markup \<Rightarrow> pdict \<Rightarrow> mstate \<Rightarrow> py_error + mstate" where
  "chunk_step markup_ok item st =
     (if \<not> has_key item ''orig_elements'' \<or> dict_get item ''orig_elements'' JNull = JNull then
        (let message =
               [Lit ''Warning: Missing 'orig_elements' in item '',
                Str (dict_get item ''id'' (JStr ''unknown''))]
         in if markup_ok message
            then Inr (st\<lparr>console := console st @ [Console_print message Yellow]\<rparr>)
            else Inl MarkupError)
      else
        (case dict_get item ''orig_elements'' JNull of
           JArr orig_elements \<Rightarrow>
             (case first_page_number orig_elements of
                Inl e \<Rightarrow> Inl e
              | Inr page_number \<Rightarrow>
                  (let st1 =
                         (if \<not> py_eq page_number (current_page st) \<and> current_page st \<noteq> JNull
                          then st\<lparr>markdown_content :=
                                     markdown_content st @ page_content st @
                                     [Page_footer (current_page st)],
                                  page_content := []\<rparr>
                          else st);
                       st2 = st1\<lparr>current_page := page_number\<rparr>
                   in case chunk_content item orig_elements of
                        Inl e \<Rightarrow> Inl e
                      | Inr segs \<Rightarrow> Inr (st2\<lparr>page_content := page_content st2 @ segs\<rparr>)))
         | JStr s \<Rightarrow> Inl (if s = [] then IndexError else AttributeError)
         | JObj d \<Rightarrow> Inl (KeyError (JNum 0))
         | _ \<Rightarrow> Inl TypeError))"

fun chunk_loop :: "markup \<Rightarrow> pdict list \<Rightarrow> mstate \<Rightarrow> py_error option \<times> mstate" where
  "chunk_loop markup_ok [] st = (None, st)"
| "chunk_loop markup_ok (item # items) st =
     (case chunk_step markup_ok item st of
        Inl e \<Rightarrow> (Some e, st)
      | Inr st' \<Rightarrow> chunk_loop markup_ok items st')"

text \<open>
  \<^verbatim>\<open>generate_markdown(json_data)\<close> for a list of dictionaries. The result is what was
  printed on the console, with the exception raised or the markdown returned. The
  parameter \<^verbatim>\<open>visual\<close> is not used by the source.
\<close>

definition generate_markdown ::
    "markup \<Rightarrow> pdict list \<Rightarrow> event list \<times> (py_error + seg list)" where
  "generate_markdown markup_ok data =
     (case chunk_loop markup_ok data
             \<lparr>markdown_content = [Leading_newline], current_page = JNull,
              page_content = [], console = []\<rparr> of
        (Some e, st) \<Rightarrow> (console st, Inl e)
      | (None, st) \<Rightarrow>
          (console st,
           Inr (if page_content st \<noteq> []
                then markdown_content st @ page_content st @ [Page_footer (current_page st)]
                else markdown_content st)))"

section \<open>Notions used to state the properties\<close>

text \<open>A summarizer whose answer changes with every call, as a remote model's may.\<close>

definition numbered :: "nat summarizer" where
  "numbered x n = (Returned (JStr (replicate (Suc n) (CHR ''s''))), Suc n)"

text \<open>A summarizer that fails on every call, with a closing tag in its message.\<close>

definition failing :: "unit summarizer" where
  "failing x u = (Raised ''bad [/red] tag'', u)"

text \<open>
  A console for the examples: it rejects the messages in which a closing tag starts, in
  the literal text or in a string formatted into it.
\<close>

fun closing_tag :: "string \<Rightarrow> bool" where
  "closing_tag [] = False"
| "closing_tag [c] = False"
| "closing_tag (c # d # cs) = ((c = CHR ''['' \<and> d = CHR ''/'') \<or> closing_tag (d # cs))"

fun piece_closes :: "piece \<Rightarrow> bool" where
  "piece_closes (Lit s) = closing_tag s"
| "piece_closes (Str v) = (case v of JStr s \<Rightarrow> closing_tag s | _ \<Rightarrow> False)"

definition no_closing_tag :: markup where
  "no_closing_tag message = (\<not> list_ex piece_closes message)"

text \<open>Counting the page footers and the summary callouts of an output.\<close>

fun is_page_footer :: "seg \<Rightarrow> bool" where
  "is_page_footer (Page_footer p) = True"
| "is_page_footer s = False"

fun is_summary_callout :: "seg \<Rightarrow> bool" where
  "is_summary_callout (Summary_callout s) = True"
| "is_summary_callout s = False"

definition footers :: "seg list \<Rightarrow> nat" where
  "footers segs = length (filter is_page_footer segs)"

definition callouts :: "seg list \<Rightarrow> nat" where
  "callouts segs = length (filter is_summary_callout segs)"

text \<open>
  The page of a chunk and the segments it contributes, as the loop computes them for a
  chunk whose \<^verbatim>\<open>orig_elements\<close> is a list.
\<close>

definition chunk_page :: "pdict \<Rightarrow> py_error + json" where
  "chunk_page item =
     (case dict_get item ''orig_elements'' JNull of
        JArr orig_elements \<Rightarrow> first_page_number orig_elements
      | _ \<Rightarrow> Inl TypeError)"

definition chunk_segs :: "pdict \<Rightarrow> py_error + seg list" where
  "chunk_segs item =
     (case dict_get item ''orig_elements'' JNull of
        JArr orig_elements \<Rightarrow> chunk_content item orig_elements
      | _ \<Rightarrow> Inl TypeError)"

text \<open>
  Page breaks as the specification words them, for chunks given by their page number
  and content: a footer naming the completed page follows a chunk when the next chunk
  is on another page, and a last footer follows the final chunk.
\<close>

fun paginate :: "(int \<times> seg list) list \<Rightarrow> seg list" where
  "paginate [] = []"
| "paginate [(p, c)] = c @ [Page_footer (JNum p)]"
| "paginate ((p, c) # (q, d) # rest) =
     c @ (if p \<noteq> q then [Page_footer (JNum p)] else []) @ paginate ((q, d) # rest)"

text \<open>
  A chunk of the data model: an identifier, a text that is a string, and a non-empty
  list of original elements, each a dictionary with a text.
\<close>

definition wf_element :: "json \<Rightarrow> bool" where
  "wf_element e = (case e of JObj el \<Rightarrow> has_key el ''text'' | _ \<Rightarrow> False)"

definition wf_chunk :: "pdict \<Rightarrow> bool" where
  "wf_chunk item =
     (has_key item ''id'' \<and>
      (case map_of item ''text'' of Some (JStr s) \<Rightarrow> True | _ \<Rightarrow> False) \<and>
      (case map_of item ''orig_elements'' of
         Some (JArr es) \<Rightarrow> es \<noteq> [] \<and> list_all wf_element es
       | _ \<Rightarrow> False))"

text \<open>The page number of a chunk's first element, when it is an integer.\<close>

definition page_int :: "pdict \<Rightarrow> int option" where
  "page_int item = (case chunk_page item of Inr (JNum n) \<Rightarrow> Some n | _ \<Rightarrow> None)"






text \<open>A chunk of one list item on page \<open>n\<close>, and the segments it contributes.\<close>

definition sample_chunk :: "string \<Rightarrow> int \<Rightarrow> pdict" where
  "sample_chunk cid n =
     [(''id'', JStr cid), (''text'', JStr ''Step''),
      (''orig_elements'',
       JArr [JObj [(''type'', JStr ''ListItem''), (''text'', JStr ''Step''), (''page_number'', JNum n)]])]"

definition sample_segs :: "string \<Rightarrow> seg list" where
  "sample_segs cid =
     [Chunk_header (JStr cid), Chunk_text '' > Step'', Original_elements,
      Element_tag (JStr ''ListItem'') (JStr ''No ID''), List_bullet (JStr ''Step''), Chunk_close]"

text \<open>The element types that the enrichment works on.\<close>

definition enrichable :: "pdict \<Rightarrow> bool" where
  "enrichable item =
     (map_of item ''type'' = Some (JStr ''Image'') \<or>
      map_of item ''type'' = Some (JStr ''NarrativeText'') \<or>
      map_of item ''type'' = Some (JStr ''Title'') \<or>
      map_of item ''type'' = Some (JStr ''UncategorizedText''))"

text \<open>
  What the enrichment may do to an element: nothing, set the text of an Image element,
  or set the summary of a text element; and to a file: that, position by position.
\<close>

definition touched :: "pdict \<Rightarrow> pdict \<Rightarrow> bool" where
  "touched a b \<longleftrightarrow>
     b = a \<or>
     (is_image a = Inr True \<and> (\<exists>v. b = dict_set a ''text'' v)) \<or>
     (is_text a = Inr True \<and> (\<exists>v. b = dict_set a ''summary'' v))"

definition framed :: "pdict list \<Rightarrow> pdict list \<Rightarrow> bool" where
  "framed file data \<longleftrightarrow> length data = length file \<and> (\<forall>i < length file. touched (file ! i) (data ! i))"

section \<open>Basic facts\<close>

lemma py_eq_JStr [simp]: "py_eq a (JStr s) = (a = JStr s)"
  by (cases a) auto

lemma py_in_Nil [simp]: "py_in x [] = False"
  by (simp add: py_in_def)

lemma py_in_Cons [simp]: "py_in x (e # es) = (py_eq e x \<or> py_in x es)"
  by (simp add: py_in_def)

lemma select_items_total:
  "\<forall>item \<in> set xs. \<exists>b. p item = Inr b \<Longrightarrow> \<exists>js. select_items p n xs = Inr js"
proof (induction xs arbitrary: n)
  case Nil
  then show ?case by simp
next
  case (Cons a xs)
  obtain b where b: "p a = Inr b" using Cons.prems by auto
  obtain js where js: "select_items p (Suc n) xs = Inr js"
    using Cons.IH [of "Suc n"] Cons.prems by auto
  show ?case by (simp add: b js)
qed

lemma is_image_typed: "has_key item ''type'' \<Longrightarrow> \<exists>b. is_image item = Inr b"
  by (auto simp: is_image_def has_key_def subscript_def)

lemma is_text_typed: "has_key item ''type'' \<Longrightarrow> \<exists>b. is_text item = Inr b"
  by (auto simp: is_text_def has_key_def subscript_def)

text \<open>
  Every segment has literal text, so that a string of segments is empty only when the
  list is.
\<close>

lemma seg_pieces_has_text: "\<exists>t. Lit t \<in> set (seg_pieces s) \<and> t \<noteq> []"
  by (cases s) auto

section \<open>Facts about the enrichment loops\<close>

lemma is_image_True: "is_image item = Inr True \<longleftrightarrow> map_of item ''type'' = Some (JStr ''Image'')"
  by (auto simp: is_image_def subscript_def split: option.splits)

lemma is_text_True:
  "is_text item = Inr True \<longleftrightarrow>
     map_of item ''type'' = Some (JStr ''NarrativeText'') \<or>
     map_of item ''type'' = Some (JStr ''Title'') \<or>
     map_of item ''type'' = Some (JStr ''UncategorizedText'')"
  by (auto simp: is_text_def subscript_def split: option.splits)

lemma select_items_sound:
  "select_items p n xs = Inr js \<Longrightarrow> j \<in> set js \<Longrightarrow>
   n \<le> j \<and> j < n + length xs \<and> p (xs ! (j - n)) = Inr True"
proof (induction xs arbitrary: n js)
  case Nil
  then show ?case by simp
next
  case (Cons x xs)
  from Cons.prems(1) obtain b js' where b: "p x = Inr b"
    and js': "select_items p (Suc n) xs = Inr js'" and js: "js = (if b then n # js' else js')"
    by (auto split: sum.splits)
  show ?case
  proof (cases "j \<in> set js'")
    case True
    from Cons.IH [OF js' True] have "Suc n \<le> j" "j < Suc n + length xs"
      "p (xs ! (j - Suc n)) = Inr True" by auto
    moreover from \<open>Suc n \<le> j\<close> have "(x # xs) ! (j - n) = xs ! (j - Suc n)"
      by (metis Suc_diff_le diff_Suc_Suc nth_Cons_Suc)
    ultimately show ?thesis by simp
  next
    case False
    with Cons.prems(2) js have "j = n" "b" by (auto split: if_splits)
    then show ?thesis using b by simp
  qed
qed

lemma select_items_complete:
  "select_items p n xs = Inr js \<Longrightarrow> i < length xs \<Longrightarrow> p (xs ! i) = Inr True \<Longrightarrow>
   n + i \<in> set js"
proof (induction xs arbitrary: n js i)
  case Nil
  then show ?case by simp
next
  case (Cons x xs)
  from Cons.prems(1) obtain b js' where b: "p x = Inr b"
    and js': "select_items p (Suc n) xs = Inr js'" and js: "js = (if b then n # js' else js')"
    by (auto split: sum.splits)
  show ?case
  proof (cases i)
    case 0
    with Cons.prems(3) b js show ?thesis by simp
  next
    case (Suc k)
    with Cons.prems have "k < length xs" "p (xs ! k) = Inr True" by auto
    from Cons.IH [OF js' this] show ?thesis using js Suc by simp
  qed
qed

text \<open>Invariants of the two loops.\<close>

lemma enrich_images_invariant:
  assumes "enrich_images markup_ok summarize_image js st = (r, st')" and "I st"
    and "\<And>j s e s'. j \<in> set js \<Longrightarrow> I s \<Longrightarrow>
           image_step markup_ok summarize_image j s = (e, s') \<Longrightarrow> I s'"
  shows "I st'"
  using assms
proof (induction js arbitrary: st)
  case Nil
  then show ?case by simp
next
  case (Cons j js)
  obtain e s1 where step: "image_step markup_ok summarize_image j st = (e, s1)"
    by (cases "image_step markup_ok summarize_image j st") auto
  have I1: "I s1" using Cons.prems(3) [of j st e s1] Cons.prems(2) step by simp
  show ?case
  proof (cases e)
    case (Some x)
    with Cons.prems(1) step I1 show ?thesis by simp
  next
    case None
    have run1: "enrich_images markup_ok summarize_image js s1 = (r, st')"
      using Cons.prems(1) step None by simp
    show ?thesis
    proof (rule Cons.IH [OF run1 I1])
      fix k s x s'
      assume "k \<in> set js" "I s" "image_step markup_ok summarize_image k s = (x, s')"
      then show "I s'" using Cons.prems(3) [of k s x s'] by simp
    qed
  qed
qed

lemma enrich_texts_invariant:
  assumes "enrich_texts markup_ok summarize_text js st = (r, st')" and "I st"
    and "\<And>j s e s'. j \<in> set js \<Longrightarrow> I s \<Longrightarrow>
           text_step markup_ok summarize_text j s = (e, s') \<Longrightarrow> I s'"
  shows "I st'"
  using assms
proof (induction js arbitrary: st)
  case Nil
  then show ?case by simp
next
  case (Cons j js)
  obtain e s1 where step: "text_step markup_ok summarize_text j st = (e, s1)"
    by (cases "text_step markup_ok summarize_text j st") auto
  have I1: "I s1" using Cons.prems(3) [of j st e s1] Cons.prems(2) step by simp
  show ?case
  proof (cases e)
    case (Some x)
    with Cons.prems(1) step I1 show ?thesis by simp
  next
    case None
    have run1: "enrich_texts markup_ok summarize_text js s1 = (r, st')"
      using Cons.prems(1) step None by simp
    show ?thesis
    proof (rule Cons.IH [OF run1 I1])
      fix k s x s'
      assume "k \<in> set js" "I s" "text_step markup_ok summarize_text k s = (x, s')"
      then show "I s'" using Cons.prems(3) [of k s x s'] by simp
    qed
  qed
qed

text \<open>What one iteration does to the data, whether it ends with an exception or not.\<close>

lemma image_step_data:
  assumes "image_step markup_ok summarize_image j s = (e, s')"
  shows "(json_data s' = json_data s \<and> written s' = written s) \<or>
         (\<exists>v. json_data s' = (json_data s)[j := dict_set (json_data s ! j) ''text'' v] \<and>
              written s' = written s @ [json_data s'])"
  using assms
  by (auto simp: image_step_def Let_def
      split: sum.splits json.splits if_splits prod.splits outcome.splits)

lemma text_step_data:
  assumes "text_step markup_ok summarize_text j s = (e, s')"
  shows "(json_data s' = json_data s \<and> written s' = written s) \<or>
         (\<exists>v. json_data s' = (json_data s)[j := dict_set (json_data s ! j) ''summary'' v] \<and>
              written s' = written s @ [json_data s'])"
  using assms
  by (auto simp: text_step_def Let_def split: if_splits prod.splits outcome.splits)

lemma framed_refl: "framed file file"
  by (simp add: framed_def touched_def)

lemma not_image_and_text: "is_image a = Inr True \<Longrightarrow> is_text a = Inr True \<Longrightarrow> False"
  by (auto simp: is_image_True is_text_True)

lemma touched_image_update:
  assumes "touched a b" "is_image a = Inr True"
  shows "touched a (dict_set b ''text'' v)"
proof -
  from assms consider "b = a" | v0 where "b = dict_set a ''text'' v0"
    using not_image_and_text [of a] by (auto simp: touched_def)
  then have "\<exists>v'. dict_set b ''text'' v = dict_set a ''text'' v'"
    by cases (auto simp: dict_set_def)
  with assms(2) show ?thesis by (simp add: touched_def)
qed

lemma touched_text_update:
  assumes "touched a b" "is_text a = Inr True"
  shows "touched a (dict_set b ''summary'' v)"
proof -
  from assms consider "b = a" | v0 where "b = dict_set a ''summary'' v0"
    using not_image_and_text [of a] by (auto simp: touched_def)
  then have "\<exists>v'. dict_set b ''summary'' v = dict_set a ''summary'' v'"
    by cases (auto simp: dict_set_def)
  with assms(2) show ?thesis by (simp add: touched_def)
qed

lemma framed_image_update:
  assumes "framed file data" "j < length file" "is_image (file ! j) = Inr True"
  shows "framed file (data[j := dict_set (data ! j) ''text'' v])"
  using assms touched_image_update [of "file ! j" "data ! j" v]
  by (auto simp: framed_def nth_list_update)

lemma framed_text_update:
  assumes "framed file data" "j < length file" "is_text (file ! j) = Inr True"
  shows "framed file (data[j := dict_set (data ! j) ''summary'' v])"
  using assms touched_text_update [of "file ! j" "data ! j" v]
  by (auto simp: framed_def nth_list_update)

lemma enrich_framed:
  fixes w :: 'w
  assumes "enrich_json_with_summaries markup_ok summarize_image summarize_text file w = (r, s)"
  shows "\<forall>data \<in> set (json_data s # written s). framed file data"
proof -
  let ?I = "\<lambda>s :: 'w estate. \<forall>data \<in> set (json_data s # written s). framed file data"
  let ?init = "\<lparr>json_data = file, written = [], printed = [], world = w\<rparr>"
  have init: "?I ?init" by (simp add: framed_refl)
  show ?thesis
  proof (cases "select_items is_image 0 file")
    case (Inl e)
    with assms init show ?thesis by (auto simp: enrich_json_with_summaries_def)
  next
    case im: (Inr imageElements)
    show ?thesis
    proof (cases "select_items is_text 0 file")
      case (Inl e)
      with assms init im show ?thesis by (auto simp: enrich_json_with_summaries_def)
    next
      case tx: (Inr textElements)
      obtain r1 s1 where
        loop: "enrich_images markup_ok summarize_image imageElements ?init = (r1, s1)"
        by (cases "enrich_images markup_ok summarize_image imageElements ?init") auto
      have s1: "?I s1"
      proof (rule enrich_images_invariant [OF loop, where I = ?I])
        show "?I ?init" by (rule init)
      next
        fix j e and s s' :: "'w estate"
        assume j: "j \<in> set imageElements" and I: "?I s"
          and step: "image_step markup_ok summarize_image j s = (e, s')"
        from select_items_sound [OF im j] have jj: "j < length file" "is_image (file ! j) = Inr True"
          by auto
        from image_step_data [OF step] show "?I s'"
        proof
          assume "json_data s' = json_data s \<and> written s' = written s"
          with I show ?thesis by simp
        next
          assume "\<exists>v. json_data s' = (json_data s)[j := dict_set (json_data s ! j) ''text'' v] \<and>
                     written s' = written s @ [json_data s']"
          then obtain v where v: "json_data s' = (json_data s)[j := dict_set (json_data s ! j) ''text'' v]"
            "written s' = written s @ [json_data s']" by blast
          have "framed file (json_data s')"
            unfolding v(1) using I jj by (intro framed_image_update) auto
          with I v(2) show ?thesis by auto
        qed
      qed
      show ?thesis
      proof (cases r1)
        case (Some e)
        with assms im tx loop s1 show ?thesis by (auto simp: enrich_json_with_summaries_def)
      next
        case None
        have run2: "enrich_texts markup_ok summarize_text textElements s1 = (r, s)"
          using assms im tx loop None by (simp add: enrich_json_with_summaries_def)
        show ?thesis
        proof (rule enrich_texts_invariant [OF run2, where I = ?I])
          show "?I s1" by (rule s1)
        next
          fix j e and s s' :: "'w estate"
          assume j: "j \<in> set textElements" and I: "?I s"
            and step: "text_step markup_ok summarize_text j s = (e, s')"
          from select_items_sound [OF tx j] have jj: "j < length file" "is_text (file ! j) = Inr True"
            by auto
          from text_step_data [OF step] show "?I s'"
          proof
            assume "json_data s' = json_data s \<and> written s' = written s"
            with I show ?thesis by simp
          next
            assume "\<exists>v. json_data s' = (json_data s)[j := dict_set (json_data s ! j) ''summary'' v] \<and>
                     written s' = written s @ [json_data s']"
            then obtain v where v: "json_data s' = (json_data s)[j := dict_set (json_data s ! j) ''summary'' v]"
              "written s' = written s @ [json_data s']" by blast
            have "framed file (json_data s')"
              unfolding v(1) using I jj by (intro framed_text_update) auto
            with I v(2) show ?thesis by auto
          qed
        qed
      qed
    qed
  qed
qed

lemma touched_frame:
  assumes "touched a b"
  shows "(\<not> enrichable a \<longrightarrow> b = a) \<and>
         (\<forall>k. k \<noteq> ''text'' \<and> k \<noteq> ''summary'' \<longrightarrow> map_of b k = map_of a k)"
  using assms
  by (auto simp: touched_def enrichable_def is_image_True is_text_True dict_set_def update_conv')

lemma select_items_increasing:
  "select_items p n xs = Inr js \<Longrightarrow> sorted_wrt (<) js"
proof (induction xs arbitrary: n js)
  case Nil
  then show ?case by simp
next
  case (Cons x xs)
  from Cons.prems obtain b js' where
    js': "select_items p (Suc n) xs = Inr js'" and js: "js = (if b then n # js' else js')"
    by (auto split: sum.splits)
  have "\<forall>j \<in> set js'. n < j"
    using select_items_sound [OF js'] by fastforce
  with Cons.IH [OF js'] js show ?case by simp
qed

lemma select_items_single:
  assumes sel: "select_items p 0 xs = Inr js"
    and a: "a < length xs" "p (xs ! a) = Inr True"
    and only: "\<forall>i < length xs. p (xs ! i) = Inr True \<longrightarrow> i = a"
  shows "js = [a]"
proof -
  have "set js = {a}"
  proof
    show "set js \<subseteq> {a}"
      using select_items_sound [OF sel] only by fastforce
    show "{a} \<subseteq> set js"
      using select_items_complete [OF sel a] by simp
  qed
  moreover have "distinct js"
    using select_items_increasing [OF sel] by (simp add: strict_sorted_iff)
  ultimately show ?thesis
  proof (cases js)
    case Nil
    with \<open>set js = {a}\<close> show ?thesis by simp
  next
    case (Cons x rest)
    with \<open>set js = {a}\<close> \<open>distinct js\<close> have "x = a" "set rest \<subseteq> {a}" "a \<notin> set rest"
      by auto
    then have "rest = []" by (cases rest) auto
    with Cons \<open>x = a\<close> show ?thesis by simp
  qed
qed

section \<open>Facts about the markdown loop\<close>

lemma chunk_page_shape:
  assumes "chunk_page item = Inr p"
  shows "\<exists>el es. map_of item ''orig_elements'' = Some (JArr (JObj el # es)) \<and>
                 p = dict_get el ''page_number'' JNull"
  using assms
  by (auto simp: chunk_page_def first_page_number_def dict_get_def
      split: option.splits json.splits list.splits)

lemma chunk_step_rendered:
  assumes "chunk_page item = Inr p" "chunk_segs item = Inr c"
  shows "chunk_step markup_ok item st =
     Inr (if \<not> py_eq p (current_page st) \<and> current_page st \<noteq> JNull
          then st\<lparr>markdown_content :=
                     markdown_content st @ page_content st @ [Page_footer (current_page st)],
                  page_content := c, current_page := p\<rparr>
          else st\<lparr>page_content := page_content st @ c, current_page := p\<rparr>)"
proof -
  obtain el es where shape: "map_of item ''orig_elements'' = Some (JArr (JObj el # es))"
    and p: "p = dict_get el ''page_number'' JNull"
    using chunk_page_shape [OF assms(1)] by blast
  have content: "chunk_content item (JObj el # es) = Inr c"
    using assms(2) shape by (simp add: chunk_segs_def dict_get_def)
  show ?thesis
    using shape p content
    by (simp add: chunk_step_def has_key_def dict_get_def first_page_number_def Let_def)
qed

lemma render_element_no_footer:
  "render_element item e = Inr segs \<Longrightarrow> filter is_page_footer segs = []"
  by (auto simp: render_element_def Let_def split: json.splits if_splits sum.splits)

lemma render_elements_no_footer:
  "render_elements item es = Inr segs \<Longrightarrow> filter is_page_footer segs = []"
proof (induction es arbitrary: segs)
  case Nil
  then show ?case by simp
next
  case (Cons e es)
  then show ?case
    by (auto split: sum.splits dest: render_element_no_footer)
qed

lemma chunk_segs_no_footer:
  assumes "chunk_segs item = Inr c"
  shows "filter is_page_footer c = []" and "c \<noteq> []"
  using assms
  by (auto simp: chunk_segs_def chunk_content_def Let_def
      split: json.splits sum.splits dest: render_elements_no_footer)

lemma wf_element_renders: "wf_element e \<Longrightarrow> \<exists>segs. render_element item e = Inr segs"
  by (auto simp: wf_element_def render_element_def Let_def has_key_def subscript_def
      split: json.splits)

lemma wf_elements_render:
  "list_all wf_element es \<Longrightarrow> \<exists>segs. render_elements item es = Inr segs"
proof (induction es)
  case Nil
  then show ?case by simp
next
  case (Cons e es)
  obtain s where s: "render_element item e = Inr s"
    using wf_element_renders Cons.prems by auto
  obtain ss where ss: "render_elements item es = Inr ss"
    using Cons by auto
  show ?case by (simp add: s ss)
qed

lemma wf_chunk_renders: "wf_chunk item \<Longrightarrow> \<exists>c. chunk_segs item = Inr c"
proof -
  assume wf: "wf_chunk item"
  then obtain s es where t: "map_of item ''text'' = Some (JStr s)"
    and es: "map_of item ''orig_elements'' = Some (JArr es)" "list_all wf_element es"
    and i: "has_key item ''id''"
    by (auto simp: wf_chunk_def split: option.splits json.splits)
  obtain segs where "render_elements item es = Inr segs"
    using wf_elements_render [OF es(2)] by blast
  then show ?thesis
    using t es(1) i
    by (auto simp: chunk_segs_def chunk_content_def dict_get_def subscript_def has_key_def Let_def)
qed


lemma chunk_loop_raises:
  assumes "item \<in> set items" "\<And>st. chunk_step markup_ok item st = Inl e"
  shows "\<exists>e' st'. chunk_loop markup_ok items st = (Some e', st')"
  using assms(1)
proof (induction items arbitrary: st)
  case Nil
  then show ?case by simp
next
  case (Cons a items)
  show ?case
  proof (cases "chunk_step markup_ok a st")
    case (Inl e')
    then show ?thesis by simp
  next
    case (Inr st1)
    then have "a \<noteq> item" using assms(2) by auto
    with Cons.prems have "item \<in> set items" by auto
    from Cons.IH [OF this] show ?thesis using Inr by simp
  qed
qed

section \<open>Enrichment of one image and one text element\<close>

text \<open>
  C1. The file holds exactly one Image element, with a base64 payload, and exactly one
  element of the text set, a NarrativeText element with a non-empty text; both
  summarizers return a non-empty string. Then the run ends normally; the text of the
  Image element is the string the image summarizer returned; the NarrativeText element
  has that of the text summarizer under \<^verbatim>\<open>summary\<close> and keeps its text; nothing else
  changes; and the file is written exactly twice, after the image and after the text.
\<close>

theorem enrich_image_and_text:
  assumes typed: "\<forall>item \<in> set file. has_key item ''type''"
    and a: "a < length file" "file ! a = img"
    and b: "b < length file" "file ! b = narrative"
    and one_image: "\<forall>i < length file. is_image (file ! i) = Inr True \<longrightarrow> i = a"
    and one_text: "\<forall>i < length file. is_text (file ! i) = Inr True \<longrightarrow> i = b"
    and img: "map_of img ''type'' = Some (JStr ''Image'')"
      "map_of img ''metadata'' = Some (JObj metadata)"
      "map_of metadata ''image_base64'' = Some (JStr payload)" "payload \<noteq> []"
    and narrative: "map_of narrative ''type'' = Some (JStr ''NarrativeText'')"
      "map_of narrative ''text'' = Some (JStr t)" "t \<noteq> []"
    and image_summary: "summarize_image (JStr payload) w = (Returned (JStr s1), w1)" "s1 \<noteq> []"
    and text_summary: "summarize_text (JStr t) w1 = (Returned (JStr s2), w2)" "s2 \<noteq> []"
  shows "enrich_json_with_summaries markup_ok summarize_image summarize_text file w =
           (None,
            \<lparr>json_data = file[a := dict_set img ''text'' (JStr s1),
                               b := dict_set narrative ''summary'' (JStr s2)],
              written = [file[a := dict_set img ''text'' (JStr s1)],
                         file[a := dict_set img ''text'' (JStr s1),
                              b := dict_set narrative ''summary'' (JStr s2)]],
              printed = [], world = w2\<rparr>) \<and>
         map_of (dict_set img ''text'' (JStr s1)) ''text'' = Some (JStr s1) \<and> s1 \<noteq> [] \<and>
         map_of (dict_set narrative ''summary'' (JStr s2)) ''summary'' = Some (JStr s2) \<and> s2 \<noteq> [] \<and>
         map_of (dict_set narrative ''summary'' (JStr s2)) ''text'' = Some (JStr t)"
proof -
  obtain ims where ims: "select_items is_image 0 file = Inr ims"
    using select_items_total [of "file" is_image 0] typed is_image_typed by blast
  obtain txs where txs: "select_items is_text 0 file = Inr txs"
    using select_items_total [of "file" is_text 0] typed is_text_typed by blast
  have "is_image (file ! a) = Inr True"
    using a img by (simp add: is_image_True)
  from select_items_single [OF ims a(1) this one_image] have ims1: "ims = [a]" .
  have "is_text (file ! b) = Inr True"
    using b narrative by (simp add: is_text_True)
  from select_items_single [OF txs b(1) this one_text] have txs1: "txs = [b]" .
  have ab: "a \<noteq> b"
    using a b img narrative by auto
  have run: "enrich_json_with_summaries markup_ok summarize_image summarize_text file w =
           (None,
            \<lparr>json_data = file[a := dict_set img ''text'' (JStr s1),
                               b := dict_set narrative ''summary'' (JStr s2)],
              written = [file[a := dict_set img ''text'' (JStr s1)],
                         file[a := dict_set img ''text'' (JStr s1),
                              b := dict_set narrative ''summary'' (JStr s2)]],
              printed = [], world = w2\<rparr>)"
    using a b ab img narrative image_summary text_summary
    by (simp add: enrich_json_with_summaries_def ims ims1 txs txs1 image_step_def text_step_def
        subscript_def dict_get_def Let_def)
  have fields: "map_of (dict_set img ''text'' (JStr s1)) ''text'' = Some (JStr s1)"
    "map_of (dict_set narrative ''summary'' (JStr s2)) ''summary'' = Some (JStr s2)"
    "map_of (dict_set narrative ''summary'' (JStr s2)) ''text'' = Some (JStr t)"
    using narrative by (simp_all add: dict_set_def update_conv')
  from run fields image_summary text_summary show ?thesis by simp
qed



theorem enrich_image_and_text_witness:
  "enrich_json_with_summaries no_closing_tag numbered numbered
     [[(''type'', JStr ''Image''), (''text'', JStr ''''),
       (''metadata'', JObj [(''image_base64'', JStr ''QUJD'')])],
      [(''type'', JStr ''NarrativeText''), (''text'', JStr ''Read the manual.'')]] 0 =
   (None,
    \<lparr>json_data =
       [[(''type'', JStr ''Image''), (''text'', JStr ''s''),
         (''metadata'', JObj [(''image_base64'', JStr ''QUJD'')])],
        [(''type'', JStr ''NarrativeText''), (''text'', JStr ''Read the manual.''),
         (''summary'', JStr ''ss'')]],
     written =
       [[[(''type'', JStr ''Image''), (''text'', JStr ''s''),
          (''metadata'', JObj [(''image_base64'', JStr ''QUJD'')])],
         [(''type'', JStr ''NarrativeText''), (''text'', JStr ''Read the manual.'')]],
        [[(''type'', JStr ''Image''), (''text'', JStr ''s''),
          (''metadata'', JObj [(''image_base64'', JStr ''QUJD'')])],
         [(''type'', JStr ''NarrativeText''), (''text'', JStr ''Read the manual.''),
          (''summary'', JStr ''ss'')]]],
     printed = [], world = 2\<rparr>)"
proof -
  let ?img = "[(''type'', JStr ''Image''), (''text'', JStr ''''),
               (''metadata'', JObj [(''image_base64'', JStr ''QUJD'')])]"
  let ?txt = "[(''type'', JStr ''NarrativeText''), (''text'', JStr ''Read the manual.'')]"
  have typed: "\<forall>item \<in> set [?img, ?txt]. has_key item ''type''"
    by (simp add: has_key_def)
  have one_image: "\<forall>i < length [?img, ?txt]. is_image ([?img, ?txt] ! i) = Inr True \<longrightarrow> i = 0"
  proof (intro allI impI)
    fix i :: nat
    assume "i < length [?img, ?txt]" "is_image ([?img, ?txt] ! i) = Inr True"
    then show "i = 0" by (cases i) (auto simp: is_image_True)
  qed
  have one_text: "\<forall>i < length [?img, ?txt]. is_text ([?img, ?txt] ! i) = Inr True \<longrightarrow> i = 1"
  proof (intro allI impI)
    fix i :: nat
    assume "i < length [?img, ?txt]" "is_text ([?img, ?txt] ! i) = Inr True"
    then show "i = 1" by (cases i) (auto simp: is_text_True)
  qed
  have s1: "numbered (JStr ''QUJD'') 0 = (Returned (JStr ''s''), 1)"
    by (simp add: numbered_def)
  have s2: "numbered (JStr ''Read the manual.'') 1 = (Returned (JStr ''ss''), 2)"
    by (simp add: numbered_def numeral_2_eq_2)
  have "enrich_json_with_summaries no_closing_tag numbered numbered [?img, ?txt] 0 =
           (None,
            \<lparr>json_data = [?img, ?txt][0 := dict_set ?img ''text'' (JStr ''s''),
                               1 := dict_set ?txt ''summary'' (JStr ''ss'')],
              written = [[?img, ?txt][0 := dict_set ?img ''text'' (JStr ''s'')],
                         [?img, ?txt][0 := dict_set ?img ''text'' (JStr ''s''),
                              1 := dict_set ?txt ''summary'' (JStr ''ss'')]],
              printed = [], world = 2\<rparr>)"
    using enrich_image_and_text
      [of "[?img, ?txt]" 0 ?img 1 ?txt "[(''image_base64'', JStr ''QUJD'')]" "''QUJD''"
          "''Read the manual.''" numbered 0 "''s''" 1 numbered "''ss''" 2 no_closing_tag]
      typed one_image one_text s1 s2
    by simp
  then show ?thesis by (simp add: dict_set_def)
qed

section \<open>Page footers\<close>

lemma paginate_append_content:
  "paginate ((q, a @ b) # rest) = a @ paginate ((q, b) # rest)"
  by (cases rest) auto

lemma chunk_loop_paginate:
  assumes "\<forall>(item, p, c) \<in> set xs. chunk_page item = Inr (JNum p) \<and> chunk_segs item = Inr c"
    and "current_page st = JNum q"
  shows "\<exists>st'. chunk_loop markup_ok (map fst xs) st = (None, st') \<and> console st' = console st \<and>
           (page_content st \<noteq> [] \<or> xs \<noteq> [] \<longrightarrow> page_content st' \<noteq> []) \<and>
           markdown_content st' @ page_content st' @ [Page_footer (current_page st')] =
             markdown_content st @ paginate ((q, page_content st) # map snd xs)"
  using assms
proof (induction xs arbitrary: st q)
  case Nil
  then show ?case by simp
next
  case (Cons x xs)
  obtain item p c where x: "x = (item, p, c)" by (cases x) auto
  have pg: "chunk_page item = Inr (JNum p)" and sg: "chunk_segs item = Inr c"
    using Cons.prems(1) x by auto
  note step = chunk_step_rendered [OF pg sg, of markup_ok st]
  have c: "c \<noteq> []" using chunk_segs_no_footer(2) [OF sg] .
  show ?case
  proof (cases "p = q")
    case True
    define st1 where "st1 = st\<lparr>page_content := page_content st @ c, current_page := JNum p\<rparr>"
    have s1: "chunk_step markup_ok item st = Inr st1"
      using step True Cons.prems(2) by (simp add: st1_def)
    have "\<forall>(item, p, c) \<in> set xs. chunk_page item = Inr (JNum p) \<and> chunk_segs item = Inr c"
      using Cons.prems(1) by simp
    from Cons.IH [OF this, of st1 p] obtain st' where
      st': "chunk_loop markup_ok (map fst xs) st1 = (None, st')" "console st' = console st1"
        "page_content st1 \<noteq> [] \<or> xs \<noteq> [] \<longrightarrow> page_content st' \<noteq> []"
        "markdown_content st' @ page_content st' @ [Page_footer (current_page st')] =
             markdown_content st1 @ paginate ((p, page_content st1) # map snd xs)"
      by (auto simp: st1_def)
    show ?thesis
      using st' s1 c True x
      by (cases xs) (auto simp: st1_def paginate_append_content)
  next
    case False
    define st1 where "st1 = st\<lparr>markdown_content :=
                     markdown_content st @ page_content st @ [Page_footer (current_page st)],
                  page_content := c, current_page := JNum p\<rparr>"
    have s1: "chunk_step markup_ok item st = Inr st1"
      using step False Cons.prems(2) by (simp add: st1_def)
    have "\<forall>(item, p, c) \<in> set xs. chunk_page item = Inr (JNum p) \<and> chunk_segs item = Inr c"
      using Cons.prems(1) by simp
    from Cons.IH [OF this, of st1 p] obtain st' where
      st': "chunk_loop markup_ok (map fst xs) st1 = (None, st')" "console st' = console st1"
        "page_content st1 \<noteq> [] \<or> xs \<noteq> [] \<longrightarrow> page_content st' \<noteq> []"
        "markdown_content st' @ page_content st' @ [Page_footer (current_page st')] =
             markdown_content st1 @ paginate ((p, page_content st1) # map snd xs)"
      by (auto simp: st1_def)
    show ?thesis
      using st' s1 c False x Cons.prems(2)
      by (auto simp: st1_def)
  qed
qed


lemma footers_paginate:
  assumes "sorted (map fst cs)" "\<forall>(p, c) \<in> set cs. filter is_page_footer c = []"
  shows "footers (paginate cs) = card (set (map fst cs))"
  using assms
proof (induction cs rule: paginate.induct)
  case 1
  then show ?case by (simp add: footers_def)
next
  case (2 p c)
  then show ?case by (simp add: footers_def)
next
  case (3 p c q d rest)
  have IH: "footers (paginate ((q, d) # rest)) = card (set (map fst ((q, d) # rest)))"
    using 3 by simp
  have c: "filter is_page_footer c = []" using 3(3) by simp
  show ?case
  proof (cases "p = q")
    case True
    then show ?thesis using IH c by (simp add: footers_def insert_absorb)
  next
    case False
    have "p \<notin> set (map fst ((q, d) # rest))"
      using 3(2) False by fastforce
    then have "card (set (map fst ((p, c) # (q, d) # rest))) =
               Suc (card (set (map fst ((q, d) # rest))))"
      by simp
    then show ?thesis using IH c False by (simp add: footers_def)
  qed
qed

lemma wf_chunks_render:
  "list_all wf_chunk chunks \<Longrightarrow> \<exists>contents. map chunk_segs chunks = map Inr contents"
proof (induction chunks)
  case Nil
  then show ?case by simp
next
  case (Cons item chunks)
  obtain c where c: "chunk_segs item = Inr c" using wf_chunk_renders Cons.prems by auto
  obtain cs where cs: "map chunk_segs chunks = map Inr cs" using Cons by auto
  have "map chunk_segs (item # chunks) = map Inr (c # cs)" by (simp add: c cs)
  then show ?case by blast
qed

lemma page_int_Some: "page_int item = Some n \<Longrightarrow> chunk_page item = Inr (JNum n)"
  by (auto simp: page_int_def split: sum.splits json.splits)

lemma sample_chunk_segs: "chunk_segs (sample_chunk cid n) = Inr (sample_segs cid)"
  by (simp add: chunk_segs_def sample_chunk_def sample_segs_def dict_get_def chunk_content_def
      subscript_def render_element_def Let_def splitlines_def line_boundary_def)

lemma sample_chunk_page: "page_int (sample_chunk cid n) = Some n"
  by (simp add: page_int_def chunk_page_def sample_chunk_def dict_get_def first_page_number_def)

lemma sample_chunk_wf: "wf_chunk (sample_chunk cid n)"
  by (simp add: wf_chunk_def sample_chunk_def has_key_def wf_element_def)

text \<open>
  C2. Every chunk is well formed, with a non-empty list of original elements, and the
  page numbers of the first elements are integers in non-decreasing order. Then
  \<^verbatim>\<open>generate_markdown\<close> returns the leading newline followed by the contents of the chunks
  in order, with a footer naming the completed page after the last chunk of each page,
  the final page included; the footers are as many as the distinct page numbers. For the
  pages 1, 1, 2, 2, 3 the three footers stand after the second, fourth and fifth chunk.
\<close>

theorem page_footers:
  assumes wf: "list_all wf_chunk chunks"
    and pages: "map page_int chunks = map Some pages"
    and sorted: "sorted pages"
  shows "\<exists>contents.
           map chunk_segs chunks = map Inr contents \<and>
           generate_markdown markup_ok chunks =
             ([], Inr (Leading_newline # paginate (zip pages contents))) \<and>
           footers (Leading_newline # paginate (zip pages contents)) = card (set pages)"
proof -
  obtain contents where contents: "map chunk_segs chunks = map Inr contents"
    using wf_chunks_render [OF wf] by blast
  have len: "length pages = length chunks" "length contents = length chunks"
    using pages contents by (metis length_map)+
  define xs where "xs = zip chunks (zip pages contents)"
  have fst_xs: "map fst xs = chunks" and snd_xs: "map snd xs = zip pages contents"
    using len by (simp_all add: xs_def)
  have ok: "\<forall>(item, p, c) \<in> set xs. chunk_page item = Inr (JNum p) \<and> chunk_segs item = Inr c"
  proof (clarify)
    fix item p c
    assume "(item, p, c) \<in> set xs"
    then obtain i where i: "i < length chunks" "item = chunks ! i" "p = pages ! i" "c = contents ! i"
      using len by (auto simp: xs_def in_set_zip)
    have "page_int item = Some p"
      using i pages len by (metis nth_map)
    moreover have "chunk_segs item = Inr c"
      using i contents len by (metis nth_map)
    ultimately show "chunk_page item = Inr (JNum p) \<and> chunk_segs item = Inr c"
      by (simp add: page_int_Some)
  qed
  have nofoot: "\<forall>(p, c) \<in> set (zip pages contents). filter is_page_footer c = []"
  proof (clarify)
    fix p c
    assume "(p, c) \<in> set (zip pages contents)"
    then have "c \<in> set contents" by (rule set_zip_rightD)
    then obtain i where "i < length contents" "c = contents ! i" by (auto simp: in_set_conv_nth)
    then have "chunk_segs (chunks ! i) = Inr c"
      using contents len by (metis nth_map)
    then show "filter is_page_footer c = []" by (rule chunk_segs_no_footer(1))
  qed
  have count: "footers (Leading_newline # paginate (zip pages contents)) = card (set pages)"
  proof -
    have "footers (paginate (zip pages contents)) = card (set (map fst (zip pages contents)))"
      by (rule footers_paginate) (use sorted len nofoot in simp_all)
    then show ?thesis using len by (simp add: footers_def)
  qed
  let ?init = "\<lparr>markdown_content = [Leading_newline], current_page = JNull,
                 page_content = [], console = []\<rparr>"
  have run: "generate_markdown markup_ok chunks = ([], Inr (Leading_newline # paginate (zip pages contents)))"
  proof (cases xs)
    case Nil
    then have "chunks = []" using fst_xs by auto
    then have "chunks = []" "pages = []" using len by auto
    then show ?thesis by (simp add: generate_markdown_def)
  next
    case (Cons x rest)
    obtain item p c where x: "x = (item, p, c)" by (cases x) auto
    have pg: "chunk_page item = Inr (JNum p)" and sg: "chunk_segs item = Inr c"
      using ok Cons x by auto
    define st1 where "st1 = ?init\<lparr>page_content := c, current_page := JNum p\<rparr>"
    have s1: "chunk_step markup_ok item ?init = Inr st1"
      using chunk_step_rendered [OF pg sg, of markup_ok ?init] by (simp add: st1_def)
    have c: "c \<noteq> []" using chunk_segs_no_footer(2) [OF sg] .
    have "\<forall>(item, p, c) \<in> set rest. chunk_page item = Inr (JNum p) \<and> chunk_segs item = Inr c"
      using ok Cons by simp
    from chunk_loop_paginate [OF this, of st1 p] obtain st' where
      st': "chunk_loop markup_ok (map fst rest) st1 = (None, st')" "console st' = console st1"
        "page_content st' \<noteq> []"
        "markdown_content st' @ page_content st' @ [Page_footer (current_page st')] =
             markdown_content st1 @ paginate ((p, page_content st1) # map snd rest)"
      using c by (auto simp: st1_def)
    have "chunk_loop markup_ok chunks ?init = (None, st')"
      using fst_xs Cons x s1 st'(1) by auto
    moreover have "zip pages contents = (p, c) # map snd rest"
      using snd_xs Cons x by auto
    ultimately show ?thesis
      using st'(2,3,4) by (simp add: generate_markdown_def st1_def)
  qed
  from contents run count show ?thesis by blast
qed

theorem page_footers_witness:
  "generate_markdown no_closing_tag
     [sample_chunk ''a'' 1, sample_chunk ''b'' 1, sample_chunk ''c'' 2, sample_chunk ''d'' 2,
      sample_chunk ''e'' 3] =
   ([], Inr (Leading_newline # sample_segs ''a'' @ sample_segs ''b'' @ [Page_footer (JNum 1)] @
             sample_segs ''c'' @ sample_segs ''d'' @ [Page_footer (JNum 2)] @
             sample_segs ''e'' @ [Page_footer (JNum 3)])) \<and>
   footers (Leading_newline # sample_segs ''a'' @ sample_segs ''b'' @ [Page_footer (JNum 1)] @
             sample_segs ''c'' @ sample_segs ''d'' @ [Page_footer (JNum 2)] @
             sample_segs ''e'' @ [Page_footer (JNum 3)]) = 3"
  using page_footers
    [of "[sample_chunk ''a'' 1, sample_chunk ''b'' 1, sample_chunk ''c'' 2, sample_chunk ''d'' 2,
          sample_chunk ''e'' 3]" "[1, 1, 2, 2, 3]" no_closing_tag]
  by (auto simp: sample_chunk_segs sample_chunk_page sample_chunk_wf)

section \<open>Failures of the summarizers\<close>

text \<open>
  C3. The image loop prints its messages as markup: in the handler the message of the
  exception, before it is logged, and for an element with no payload the text of the
  element. The first element of the file is an Image element with a metadata dictionary
  and the console rejects what is printed for it. When the summarizer raises on its
  payload, \<^verbatim>\<open>MarkupError\<close> leaves the handler and the function: the error is not logged.
  When it has no payload, \<^verbatim>\<open>MarkupError\<close> leaves the function where the element should
  be skipped. In both cases nothing is written and the rest of the file is not
  processed, whatever it holds: one element has ended the run.
\<close>

theorem rejected_message_aborts:
  assumes img: "map_of img ''type'' = Some (JStr ''Image'')"
      "map_of img ''metadata'' = Some (JObj metadata)"
    and rest: "\<forall>item \<in> set rest. has_key item ''type''"
  shows "(truthy (dict_get metadata ''image_base64'' JNull) \<and>
          summarize_image (dict_get metadata ''image_base64'' JNull) w = (Raised m, w1) \<and>
          \<not> markup_ok [Lit ''Error processing image: '', Lit m] \<longrightarrow>
          enrich_json_with_summaries markup_ok summarize_image summarize_text (img # rest) w =
            (Some MarkupError,
             \<lparr>json_data = img # rest, written = [], printed = [], world = w1\<rparr>)) \<and>
         (\<not> truthy (dict_get metadata ''image_base64'' JNull) \<and>
          \<not> markup_ok [Lit ''Skipping image without base64 data: '',
                          Str (dict_get img ''text'' (JStr ''Unnamed image''))] \<longrightarrow>
          enrich_json_with_summaries markup_ok summarize_image summarize_text (img # rest) w =
            (Some MarkupError,
             \<lparr>json_data = img # rest, written = [], printed = [], world = w\<rparr>))"
proof -
  let ?init = "\<lparr>json_data = img # rest, written = [], printed = [], world = w\<rparr>"
  have all: "\<forall>item \<in> set (img # rest). has_key item ''type''"
    using img rest by (simp add: has_key_def)
  obtain js where js: "select_items is_image (Suc 0) rest = Inr js"
    using select_items_total [of rest is_image "Suc 0"] rest is_image_typed by blast
  obtain ts where ts: "select_items is_text 0 (img # rest) = Inr ts"
    using select_items_total [of "img # rest" is_text 0] all is_text_typed by blast
  have im: "select_items is_image 0 (img # rest) = Inr (0 # js)"
    using js img by (simp add: is_image_def subscript_def)
  have run: "enrich_json_with_summaries markup_ok summarize_image summarize_text (img # rest) w =
             (Some MarkupError, s)"
    if step: "image_step markup_ok summarize_image 0 ?init = (Some MarkupError, s)" for s
    unfolding enrich_json_with_summaries_def Let_def im ts using step by simp
  have handler: "image_step markup_ok summarize_image 0 ?init =
          (Some MarkupError,
           \<lparr>json_data = img # rest, written = [], printed = [], world = w1\<rparr>)"
    if "truthy (dict_get metadata ''image_base64'' JNull)"
      "summarize_image (dict_get metadata ''image_base64'' JNull) w = (Raised m, w1)"
      "\<not> markup_ok [Lit ''Error processing image: '', Lit m]"
    using img that by (simp add: image_step_def subscript_def)
  have skip: "image_step markup_ok summarize_image 0 ?init = (Some MarkupError, ?init)"
    if "\<not> truthy (dict_get metadata ''image_base64'' JNull)"
      "\<not> markup_ok [Lit ''Skipping image without base64 data: '',
                       Str (dict_get img ''text'' (JStr ''Unnamed image''))]"
    using img that by (simp add: image_step_def subscript_def Let_def)
  from run handler skip show ?thesis by blast
qed

theorem rejected_message_aborts_witness:
  "enrich_json_with_summaries no_closing_tag failing failing
     [[(''type'', JStr ''Image''), (''text'', JStr ''''),
       (''metadata'', JObj [(''image_base64'', JStr ''QUJD'')])],
      [(''type'', JStr ''NarrativeText''), (''text'', JStr ''Read the manual.'')]] () =
   (Some MarkupError,
    \<lparr>json_data =
       [[(''type'', JStr ''Image''), (''text'', JStr ''''),
         (''metadata'', JObj [(''image_base64'', JStr ''QUJD'')])],
        [(''type'', JStr ''NarrativeText''), (''text'', JStr ''Read the manual.'')]],
     written = [], printed = [], world = ()\<rparr>) \<and>
   enrich_json_with_summaries no_closing_tag numbered numbered
     [[(''type'', JStr ''Image''), (''text'', JStr ''see [/fig]''), (''metadata'', JObj [])],
      [(''type'', JStr ''NarrativeText''), (''text'', JStr ''Read the manual.'')]] 0 =
   (Some MarkupError,
    \<lparr>json_data =
       [[(''type'', JStr ''Image''), (''text'', JStr ''see [/fig]''), (''metadata'', JObj [])],
        [(''type'', JStr ''NarrativeText''), (''text'', JStr ''Read the manual.'')]],
     written = [], printed = [], world = 0\<rparr>)"
proof -
  have a: "enrich_json_with_summaries no_closing_tag failing failing
     [[(''type'', JStr ''Image''), (''text'', JStr ''''),
       (''metadata'', JObj [(''image_base64'', JStr ''QUJD'')])],
      [(''type'', JStr ''NarrativeText''), (''text'', JStr ''Read the manual.'')]] () =
   (Some MarkupError,
    \<lparr>json_data =
       [[(''type'', JStr ''Image''), (''text'', JStr ''''),
         (''metadata'', JObj [(''image_base64'', JStr ''QUJD'')])],
        [(''type'', JStr ''NarrativeText''), (''text'', JStr ''Read the manual.'')]],
     written = [], printed = [], world = ()\<rparr>)"
    using rejected_message_aborts
      [where img = "[(''type'', JStr ''Image''), (''text'', JStr ''''),
                     (''metadata'', JObj [(''image_base64'', JStr ''QUJD'')])]"
         and metadata = "[(''image_base64'', JStr ''QUJD'')]"
         and rest = "[[(''type'', JStr ''NarrativeText''), (''text'', JStr ''Read the manual.'')]]"
         and summarize_image = failing and summarize_text = failing and w = "()"
         and m = "''bad [/red] tag''" and ?w1.0 = "()" and markup_ok = no_closing_tag]
    by (simp add: has_key_def dict_get_def failing_def no_closing_tag_def)
  have b: "enrich_json_with_summaries no_closing_tag numbered numbered
     [[(''type'', JStr ''Image''), (''text'', JStr ''see [/fig]''), (''metadata'', JObj [])],
      [(''type'', JStr ''NarrativeText''), (''text'', JStr ''Read the manual.'')]] 0 =
   (Some MarkupError,
    \<lparr>json_data =
       [[(''type'', JStr ''Image''), (''text'', JStr ''see [/fig]''), (''metadata'', JObj [])],
        [(''type'', JStr ''NarrativeText''), (''text'', JStr ''Read the manual.'')]],
     written = [], printed = [], world = 0\<rparr>)"
    using rejected_message_aborts
      [where img = "[(''type'', JStr ''Image''), (''text'', JStr ''see [/fig]''),
                     (''metadata'', JObj [])]"
         and metadata = "[]"
         and rest = "[[(''type'', JStr ''NarrativeText''), (''text'', JStr ''Read the manual.'')]]"
         and summarize_image = numbered and summarize_text = numbered and w = 0
         and markup_ok = no_closing_tag]
    by (simp add: has_key_def dict_get_def no_closing_tag_def)
  from a b show ?thesis by simp
qed

section \<open>Running the enrichment again\<close>

text \<open>
  C4. The docstring of \<^verbatim>\<open>enrich_json_with_summaries\<close> promises summaries for the images
  and the text ``that don't have them'', and the claim asks that a second run skips
  what is already enriched. The code has no such test. Here the summarizers answer
  differently at every call: the first run stores the text \<open>s\<close> and the summary \<open>ss\<close>;
  the second run, on the file the first run has written, calls both summarizers again,
  replaces them by \<open>sss\<close> and \<open>ssss\<close>, and writes the file two more times.
\<close>

theorem rerun_summarizes_again:
  "enrich_json_with_summaries no_closing_tag numbered numbered
     [[(''type'', JStr ''Image''), (''text'', JStr ''''),
       (''metadata'', JObj [(''image_base64'', JStr ''QUJD'')])],
      [(''type'', JStr ''NarrativeText''), (''text'', JStr ''Read the manual.'')]] 0 =
   (None,
    \<lparr>json_data =
       [[(''type'', JStr ''Image''), (''text'', JStr ''s''),
         (''metadata'', JObj [(''image_base64'', JStr ''QUJD'')])],
        [(''type'', JStr ''NarrativeText''), (''text'', JStr ''Read the manual.''),
         (''summary'', JStr ''ss'')]],
     written =
       [[[(''type'', JStr ''Image''), (''text'', JStr ''s''),
          (''metadata'', JObj [(''image_base64'', JStr ''QUJD'')])],
         [(''type'', JStr ''NarrativeText''), (''text'', JStr ''Read the manual.'')]],
        [[(''type'', JStr ''Image''), (''text'', JStr ''s''),
          (''metadata'', JObj [(''image_base64'', JStr ''QUJD'')])],
         [(''type'', JStr ''NarrativeText''), (''text'', JStr ''Read the manual.''),
          (''summary'', JStr ''ss'')]]],
     printed = [], world = 2\<rparr>) \<and>
   enrich_json_with_summaries no_closing_tag numbered numbered
     [[(''type'', JStr ''Image''), (''text'', JStr ''s''),
       (''metadata'', JObj [(''image_base64'', JStr ''QUJD'')])],
      [(''type'', JStr ''NarrativeText''), (''text'', JStr ''Read the manual.''),
       (''summary'', JStr ''ss'')]] 2 =
   (None,
    \<lparr>json_data =
       [[(''type'', JStr ''Image''), (''text'', JStr ''sss''),
         (''metadata'', JObj [(''image_base64'', JStr ''QUJD'')])],
        [(''type'', JStr ''NarrativeText''), (''text'', JStr ''Read the manual.''),
         (''summary'', JStr ''ssss'')]],
     written =
       [[[(''type'', JStr ''Image''), (''text'', JStr ''sss''),
          (''metadata'', JObj [(''image_base64'', JStr ''QUJD'')])],
         [(''type'', JStr ''NarrativeText''), (''text'', JStr ''Read the manual.''),
          (''summary'', JStr ''ss'')]],
        [[(''type'', JStr ''Image''), (''text'', JStr ''sss''),
          (''metadata'', JObj [(''image_base64'', JStr ''QUJD'')])],
         [(''type'', JStr ''NarrativeText''), (''text'', JStr ''Read the manual.''),
          (''summary'', JStr ''ssss'')]]],
     printed = [], world = 4\<rparr>)"
  by (simp add: enrich_json_with_summaries_def is_image_def is_text_def subscript_def
      image_step_def text_step_def dict_get_def dict_set_def Let_def numbered_def eval_nat_numeral)

section \<open>Summary callouts\<close>

lemma callouts_append [simp]: "callouts (a @ b) = callouts a + callouts b"
  by (simp add: callouts_def)

lemma callouts_Nil [simp]: "callouts [] = 0"
  by (simp add: callouts_def)

lemma callouts_Cons [simp]: "callouts (s # segs) = (if is_summary_callout s then 1 else 0) + callouts segs"
  by (simp add: callouts_def)









section \<open>Rendering of Image and Table elements\<close>

lemma render_image_or_table:
  assumes "dict_get el ''type'' (JStr ''Unknown'') = JStr ''Image'' \<or>
           dict_get el ''type'' (JStr ''Unknown'') = JStr ''Table''"
  shows "render_element item (JObj el) =
     (if truthy (dict_get el ''image'' JNull) then
        (case map_of el ''text'' of
           None \<Rightarrow> Inl (KeyError (JStr ''text''))
         | Some t \<Rightarrow>
             Inr [Element_tag (dict_get el ''type'' (JStr ''Unknown'')) (dict_get el ''id'' (JStr ''No ID'')),
                  Image_reference
                    (if dict_get el ''image_mime_type'' JNull = JStr ''image/png'' then ''png'' else ''jpeg'')
                    (dict_get el ''image'' JNull) t])
      else
        Inr [Element_tag (dict_get el ''type'' (JStr ''Unknown'')) (dict_get el ''id'' (JStr ''No ID'')),
             Image_placeholder
               (case map_of el ''text'' of
                  None \<Rightarrow> JStr ''No content''
                | Some t \<Rightarrow> if truthy t then t else JStr ''?Unknown'')])"
  using assms
  by (auto simp: render_element_def Let_def subscript_def py_or_def dict_get_def split: option.splits)

text \<open>
  C6, as the claim states it, fails for an element with no \<^verbatim>\<open>text\<close> key: the
  placeholder shows the default \<^verbatim>\<open>No content\<close> of \<^verbatim>\<open>orig_element.get('text', 'No content')\<close>,
  not the marker \<^verbatim>\<open>?Unknown\<close>.
\<close>

theorem image_without_text_counterexample:
  "render_element [] (JObj [(''type'', JStr ''Image'')]) =
     Inr [Element_tag (JStr ''Image'') (JStr ''No ID''), Image_placeholder (JStr ''No content'')] \<and>
   render_element [] (JObj [(''type'', JStr ''Image'')]) \<noteq>
     Inr [Element_tag (JStr ''Image'') (JStr ''No ID''), Image_placeholder (JStr ''?Unknown'')]"
  by (simp add: render_element_def dict_get_def py_or_def Let_def)

text \<open>
  C6, amended. An element of type Image or Table with no image payload is rendered as
  its tag and the placeholder line \<^verbatim>\<open>> Image: ...\<close>, which shows the text of the element,
  the marker \<^verbatim>\<open>?Unknown\<close> when the text is there but empty or \<^verbatim>\<open>None\<close>, and
  \<^verbatim>\<open>No content\<close> when the element has no text. With a payload and a text it is rendered
  as an image reference, of format \<^verbatim>\<open>png\<close> when \<^verbatim>\<open>image_mime_type\<close> is \<^verbatim>\<open>image/png\<close> and
  \<^verbatim>\<open>jpeg\<close> otherwise, with the text as caption.
\<close>

theorem image_or_table_rendering:
  assumes "dict_get el ''type'' (JStr ''Unknown'') = JStr ''Image'' \<or>
           dict_get el ''type'' (JStr ''Unknown'') = JStr ''Table''"
  shows "(\<not> truthy (dict_get el ''image'' JNull) \<longrightarrow>
            render_element item (JObj el) =
              Inr [Element_tag (dict_get el ''type'' (JStr ''Unknown'')) (dict_get el ''id'' (JStr ''No ID'')),
                   Image_placeholder
                     (case map_of el ''text'' of
                        None \<Rightarrow> JStr ''No content''
                      | Some t \<Rightarrow> if truthy t then t else JStr ''?Unknown'')]) \<and>
         (truthy (dict_get el ''image'' JNull) \<longrightarrow>
            (\<forall>t. map_of el ''text'' = Some t \<longrightarrow>
               render_element item (JObj el) =
                 Inr [Element_tag (dict_get el ''type'' (JStr ''Unknown'')) (dict_get el ''id'' (JStr ''No ID'')),
                      Image_reference
                        (if dict_get el ''image_mime_type'' JNull = JStr ''image/png''
                         then ''png'' else ''jpeg'')
                        (dict_get el ''image'' JNull) t]))"
  using render_image_or_table [OF assms, of item] by simp

theorem image_or_table_rendering_witness:
  "render_element [] (JObj [(''id'', JStr ''e1''), (''type'', JStr ''Image''), (''text'', JStr '''')]) =
     Inr [Element_tag (JStr ''Image'') (JStr ''e1''), Image_placeholder (JStr ''?Unknown'')] \<and>
   render_element []
     (JObj [(''id'', JStr ''e2''), (''type'', JStr ''Table''), (''text'', JStr ''Parts''),
            (''image'', JStr ''QUJD''), (''image_mime_type'', JStr ''image/png'')]) =
     Inr [Element_tag (JStr ''Table'') (JStr ''e2''),
          Image_reference ''png'' (JStr ''QUJD'') (JStr ''Parts'')]"
  using image_or_table_rendering
      [of "[(''id'', JStr ''e1''), (''type'', JStr ''Image''), (''text'', JStr '''')]" "[]"]
    image_or_table_rendering
      [of "[(''id'', JStr ''e2''), (''type'', JStr ''Table''), (''text'', JStr ''Parts''),
            (''image'', JStr ''QUJD''), (''image_mime_type'', JStr ''image/png'')]" "[]"]
  by (simp add: dict_get_def)

section \<open>What the enrichment leaves alone\<close>

text \<open>
  C7. Whatever the summarizers do and however the run ends, the list in memory, the file
  and every version written have as many elements as the file read; at each position an
  element whose type is none of Image, NarrativeText, Title and UncategorizedText is the
  element read, and every other element differs from the one read at most under the keys
  \<^verbatim>\<open>text\<close> and \<^verbatim>\<open>summary\<close>.
\<close>

theorem enrichment_frame:
  assumes "enrich_json_with_summaries markup_ok summarize_image summarize_text file w = (r, s)"
  shows "\<forall>data \<in> set (json_data s # file_after file s # written s).
           length data = length file \<and>
           (\<forall>i < length file.
              (\<not> enrichable (file ! i) \<longrightarrow> data ! i = file ! i) \<and>
              (\<forall>k. k \<noteq> ''text'' \<and> k \<noteq> ''summary'' \<longrightarrow>
                   map_of (data ! i) k = map_of (file ! i) k))"
proof
  fix data
  assume "data \<in> set (json_data s # file_after file s # written s)"
  then have "data = file \<or> data \<in> set (json_data s # written s)"
    by (cases "written s = []") (auto simp: file_after_def)
  then have "framed file data"
    using enrich_framed [OF assms] framed_refl by auto
  then show "length data = length file \<and>
           (\<forall>i < length file.
              (\<not> enrichable (file ! i) \<longrightarrow> data ! i = file ! i) \<and>
              (\<forall>k. k \<noteq> ''text'' \<and> k \<noteq> ''summary'' \<longrightarrow>
                   map_of (data ! i) k = map_of (file ! i) k))"
    using touched_frame by (auto simp: framed_def)
qed

theorem enrichment_frame_witness:
  "length (json_data (snd (enrich_json_with_summaries no_closing_tag numbered numbered
          [[(''type'', JStr ''Header''), (''text'', JStr ''Manual'')],
           [(''type'', JStr ''Image''), (''text'', JStr ''''),
            (''metadata'', JObj [(''image_base64'', JStr ''QUJD'')])],
           [(''type'', JStr ''NarrativeText''), (''text'', JStr ''Read the manual.'')]] 0))) = 3 \<and>
   json_data (snd (enrich_json_with_summaries no_closing_tag numbered numbered
          [[(''type'', JStr ''Header''), (''text'', JStr ''Manual'')],
           [(''type'', JStr ''Image''), (''text'', JStr ''''),
            (''metadata'', JObj [(''image_base64'', JStr ''QUJD'')])],
           [(''type'', JStr ''NarrativeText''), (''text'', JStr ''Read the manual.'')]] 0)) ! 0 =
     [(''type'', JStr ''Header''), (''text'', JStr ''Manual'')]"
proof -
  let ?F = "[[(''type'', JStr ''Header''), (''text'', JStr ''Manual'')],
           [(''type'', JStr ''Image''), (''text'', JStr ''''),
            (''metadata'', JObj [(''image_base64'', JStr ''QUJD'')])],
           [(''type'', JStr ''NarrativeText''), (''text'', JStr ''Read the manual.'')]]"
  let ?X = "enrich_json_with_summaries no_closing_tag numbered numbered ?F 0"
  have "?X = (fst ?X, snd ?X)" by simp
  from enrichment_frame [OF this]
  have "length (json_data (snd ?X)) = length ?F \<and>
        (\<forall>i < length ?F.
              (\<not> enrichable (?F ! i) \<longrightarrow> json_data (snd ?X) ! i = ?F ! i) \<and>
              (\<forall>k. k \<noteq> ''text'' \<and> k \<noteq> ''summary'' \<longrightarrow>
                   map_of (json_data (snd ?X) ! i) k = map_of (?F ! i) k))"
    by simp
  then have "length (json_data (snd ?X)) = length ?F"
    and "\<not> enrichable (?F ! 0) \<longrightarrow> json_data (snd ?X) ! 0 = ?F ! 0"
    by auto
  then show ?thesis by (simp add: enrichable_def)
qed

section \<open>Chunks without original elements\<close>

lemma chunk_step_rejected:
  assumes "map_of item ''orig_elements'' = None \<or> map_of item ''orig_elements'' = Some JNull"
    and "\<not> markup_ok [Lit ''Warning: Missing 'orig_elements' in item '',
                        Str (dict_get item ''id'' (JStr ''unknown''))]"
  shows "chunk_step markup_ok item st = Inl MarkupError"
  using assms by (auto simp: chunk_step_def has_key_def dict_get_def Let_def)

lemma chunk_step_skipped:
  assumes "map_of item ''orig_elements'' = None \<or> map_of item ''orig_elements'' = Some JNull"
    and "markup_ok [Lit ''Warning: Missing 'orig_elements' in item '',
                     Str (dict_get item ''id'' (JStr ''unknown''))]"
  shows "chunk_step markup_ok item st =
           Inr (st\<lparr>console := console st @
                     [Console_print
                        [Lit ''Warning: Missing 'orig_elements' in item '',
                         Str (dict_get item ''id'' (JStr ''unknown''))] Yellow]\<rparr>)"
  using assms by (auto simp: chunk_step_def has_key_def dict_get_def Let_def)

text \<open>
  C8. The warning for a chunk whose \<^verbatim>\<open>orig_elements\<close> is missing or \<^verbatim>\<open>None\<close> is printed as
  markup, with the identifier of the chunk in it. When the console rejects the message,
  the iteration that should skip the chunk raises \<^verbatim>\<open>MarkupError\<close>: alone in the input the
  chunk makes \<^verbatim>\<open>generate_markdown\<close> raise that error, and an input that holds such a chunk
  anywhere never returns a document.
\<close>

theorem rejected_warning_raises:
  assumes missing:
      "map_of item ''orig_elements'' = None \<or> map_of item ''orig_elements'' = Some JNull"
    and rejected:
      "\<not> markup_ok [Lit ''Warning: Missing 'orig_elements' in item '',
                      Str (dict_get item ''id'' (JStr ''unknown''))]"
  shows "generate_markdown markup_ok [item] = ([], Inl MarkupError) \<and>
         (item \<in> set data \<longrightarrow> (\<exists>e. snd (generate_markdown markup_ok data) = Inl e))"
proof -
  note step = chunk_step_rejected [where markup_ok = markup_ok, OF missing rejected]
  have one: "generate_markdown markup_ok [item] = ([], Inl MarkupError)"
    by (simp add: generate_markdown_def step)
  have "\<exists>e. snd (generate_markdown markup_ok data) = Inl e" if mem: "item \<in> set data"
  proof -
    obtain e' st' where
      "chunk_loop markup_ok data
         \<lparr>markdown_content = [Leading_newline], current_page = JNull,
          page_content = [], console = []\<rparr> = (Some e', st')"
      using chunk_loop_raises [OF mem, where e = MarkupError and markup_ok = markup_ok] step
      by blast
    then show ?thesis by (simp add: generate_markdown_def)
  qed
  with one show ?thesis by blast
qed

theorem rejected_warning_raises_witness:
  "generate_markdown no_closing_tag
     [[(''id'', JStr ''[/x]''), (''text'', JStr ''lost''), (''orig_elements'', JNull)]] =
   ([], Inl MarkupError)"
  using rejected_warning_raises
    [of "[(''id'', JStr ''[/x]''), (''text'', JStr ''lost''), (''orig_elements'', JNull)]"
        no_closing_tag]
  by (simp add: dict_get_def no_closing_tag_def)

section \<open>An Image element without metadata\<close>

text \<open>
  C9. The lookup \<^verbatim>\<open>item['metadata']\<close> stands before the \<^verbatim>\<open>try\<close> of the image loop.
  When the first element of the file is an Image element with no \<^verbatim>\<open>metadata\<close> key
  (and every element has a type, so that the two work lists are built), the function
  is left by a \<^verbatim>\<open>KeyError\<close> whatever the summarizers do: nothing is enriched, nothing
  is written and nothing is printed, although the rest of the file may hold elements
  to enrich.
\<close>

theorem image_without_metadata_aborts:
  assumes img: "map_of img ''type'' = Some (JStr ''Image'')" "map_of img ''metadata'' = None"
    and rest: "\<forall>item \<in> set rest. has_key item ''type''"
  shows "enrich_json_with_summaries markup_ok summarize_image summarize_text (img # rest) w =
           (Some (KeyError (JStr ''metadata'')),
            \<lparr>json_data = img # rest, written = [], printed = [], world = w\<rparr>)"
proof -
  have all: "\<forall>item \<in> set (img # rest). has_key item ''type''"
    using img rest by (simp add: has_key_def)
  obtain js where js: "select_items is_image (Suc 0) rest = Inr js"
    using select_items_total [of rest is_image "Suc 0"] rest is_image_typed by blast
  obtain ts where ts: "select_items is_text 0 (img # rest) = Inr ts"
    using select_items_total [of "img # rest" is_text 0] all is_text_typed by blast
  have im: "select_items is_image 0 (img # rest) = Inr (0 # js)"
    using js img by (simp add: is_image_def subscript_def)
  have step: "image_step markup_ok summarize_image 0
                \<lparr>json_data = img # rest, written = [], printed = [], world = w\<rparr> =
              (Some (KeyError (JStr ''metadata'')),
               \<lparr>json_data = img # rest, written = [], printed = [], world = w\<rparr>)"
    using img by (simp add: image_step_def subscript_def)
  show ?thesis
    unfolding enrich_json_with_summaries_def Let_def im ts using step by simp
qed

theorem image_without_metadata_aborts_witness:
  "enrich_json_with_summaries no_closing_tag numbered numbered
     [[(''type'', JStr ''Image''), (''text'', JStr '''')],
      [(''type'', JStr ''NarrativeText''), (''text'', JStr ''Read the manual.'')]] 0 =
   (Some (KeyError (JStr ''metadata'')),
    \<lparr>json_data =
       [[(''type'', JStr ''Image''), (''text'', JStr '''')],
        [(''type'', JStr ''NarrativeText''), (''text'', JStr ''Read the manual.'')]],
     written = [], printed = [], world = 0\<rparr>)"
  using image_without_metadata_aborts
    [of "[(''type'', JStr ''Image''), (''text'', JStr '''')]"
        "[[(''type'', JStr ''NarrativeText''), (''text'', JStr ''Read the manual.'')]]"
        no_closing_tag numbered numbered 0]
  by (simp add: has_key_def)

section \<open>A chunk with an empty list of original elements\<close>

lemma chunk_step_empty:
  "map_of item ''orig_elements'' = Some (JArr []) \<Longrightarrow> chunk_step markup_ok item st = Inl IndexError"
  by (simp add: chunk_step_def has_key_def dict_get_def first_page_number_def)

text \<open>
  C10. A chunk whose \<^verbatim>\<open>orig_elements\<close> is the empty list is not skipped: reading the
  page number of its first element raises \<^verbatim>\<open>IndexError\<close>. Alone in the input it makes
  \<^verbatim>\<open>generate_markdown\<close> raise that error, and an input that holds such a chunk anywhere
  never returns a document.
\<close>

theorem empty_orig_elements_raises:
  assumes "map_of item ''orig_elements'' = Some (JArr [])"
  shows "generate_markdown markup_ok [item] = ([], Inl IndexError) \<and>
         (item \<in> set data \<longrightarrow> (\<exists>e. snd (generate_markdown markup_ok data) = Inl e))"
proof -
  have one: "generate_markdown markup_ok [item] = ([], Inl IndexError)"
    using assms by (simp add: generate_markdown_def chunk_step_empty)
  have "\<exists>e. snd (generate_markdown markup_ok data) = Inl e" if mem: "item \<in> set data"
  proof -
    obtain e' st' where
      "chunk_loop markup_ok data \<lparr>markdown_content = [Leading_newline], current_page = JNull,
                         page_content = [], console = []\<rparr> = (Some e', st')"
      using chunk_loop_raises [OF mem, where e = IndexError and markup_ok = markup_ok]
        chunk_step_empty [OF assms] by blast
    then show ?thesis by (simp add: generate_markdown_def)
  qed
  with one show ?thesis by blast
qed

theorem empty_orig_elements_raises_witness:
  "generate_markdown no_closing_tag
     [[(''id'', JStr ''c1''), (''text'', JStr ''abc''), (''orig_elements'', JArr [])]] =
   ([], Inl IndexError)"
  using empty_orig_elements_raises
    [of "[(''id'', JStr ''c1''), (''text'', JStr ''abc''), (''orig_elements'', JArr [])]"
        no_closing_tag]
  by simp

end
